theory Spec2Isabelle
  imports Complex_Main
begin

section \<open>JavaScript built-ins used by the bot\<close>

text \<open>
  Texts are values of type \<open>string\<close>; one \<open>char\<close> stands for one UTF-16 code unit
  below 256, so the white-space code units of ECMAScript that lie above that range
  do not occur. Numbers that the bot only compares and prints (user ids, counts) are
  integers well below \<open>2 ^ 53\<close> and are modelled as \<open>int\<close>; the two places that
  compute with \<open>Math.random()\<close> are modelled on rationals, a double being a rational.
\<close>

subsection \<open>Strings\<close>

definition is_white_space :: "char \<Rightarrow> bool" where
  \<comment> \<open>TAB, LF, VT, FF, CR, SP and NBSP: WhiteSpace and LineTerminator below 256.\<close>
  "is_white_space c = ((of_char c :: nat) \<in> set [9, 10, 11, 12, 13, 32, 160])"

definition trim :: "string \<Rightarrow> string" where
  \<comment> \<open>\<open>String.prototype.trim\<close>\<close>
  "trim s = rev (dropWhile is_white_space (rev (dropWhile is_white_space s)))"

definition substring :: "nat \<Rightarrow> nat \<Rightarrow> string \<Rightarrow> string" where
  \<comment> \<open>\<open>s.substring(a, b)\<close>: the arguments are swapped when \<open>a > b\<close> and clamped to the length.\<close>
  "substring a b s = take (max a b - min a b) (drop (min a b) s)"

definition upper_char :: "char \<Rightarrow> char" where
  "upper_char c =
     (let n = (of_char c :: nat) in if 97 \<le> n \<and> n \<le> 122 then char_of (n - 32) else c)"

definition toUpperCase :: "string \<Rightarrow> string" where
  \<comment> \<open>\<open>String.prototype.toUpperCase\<close> on the ASCII letters; the bot applies it to
      base-36 digits only.\<close>
  "toUpperCase s = map upper_char s"

fun join :: "string \<Rightarrow> string list \<Rightarrow> string" where
  \<comment> \<open>\<open>Array.prototype.join\<close>\<close>
  "join sep [] = []"
| "join sep [x] = x"
| "join sep (x # y # ys) = x @ sep @ join sep (y # ys)"

subsection \<open>Numbers and their texts\<close>

definition digit_char :: "nat \<Rightarrow> char" where
  \<comment> \<open>the digit table of the number-to-string conversions\<close>
  "digit_char d = ''0123456789abcdefghijklmnopqrstuvwxyz'' ! d"

fun digits10 :: "nat \<Rightarrow> string" where
  "digits10 n =
     (if n < 10 then [digit_char n] else digits10 (n div 10) @ [digit_char (n mod 10)])"

declare digits10.simps [simp del]

definition toString_num :: "int \<Rightarrow> string" where
  \<comment> \<open>\<open>Number.prototype.toString()\<close> on an integer of magnitude below \<open>10 ^ 21\<close>\<close>
  "toString_num i = (if i < 0 then CHR ''-'' # digits10 (nat (- i)) else digits10 (nat i))"

definition digit_value :: "char \<Rightarrow> nat option" where
  \<comment> \<open>the value of a digit in radix up to 36, either letter case\<close>
  "digit_value c =
     (let n = (of_char c :: nat) in
      if 48 \<le> n \<and> n \<le> 57 then Some (n - 48)
      else if 97 \<le> n \<and> n \<le> 122 then Some (n - 87)
      else if 65 \<le> n \<and> n \<le> 90 then Some (n - 55)
      else None)"

definition is_radix_digit :: "nat \<Rightarrow> char \<Rightarrow> bool" where
  "is_radix_digit R c = (case digit_value c of None \<Rightarrow> False | Some d \<Rightarrow> d < R)"

definition radix_value :: "nat \<Rightarrow> string \<Rightarrow> nat" where
  "radix_value R z =
     foldl (\<lambda>acc c. acc * R + (case digit_value c of None \<Rightarrow> 0 | Some d \<Rightarrow> d)) 0 z"

definition strip_sign :: "string \<Rightarrow> int \<times> string" where
  "strip_sign s =
     (case s of
        [] \<Rightarrow> (1, [])
      | c # cs \<Rightarrow>
          if c = CHR ''-'' then (- 1, cs) else if c = CHR ''+'' then (1, cs) else (1, s))"

definition strip_prefix :: "string \<Rightarrow> nat \<times> string" where
  \<comment> \<open>a leading \<open>0x\<close> or \<open>0X\<close> selects radix 16\<close>
  "strip_prefix s =
     (case s of
        c # x # rest \<Rightarrow>
          if c = CHR ''0'' \<and> (x = CHR ''x'' \<or> x = CHR ''X'') then (16, rest) else (10, s)
      | _ \<Rightarrow> (10, s))"

definition parseInt :: "string \<Rightarrow> int option" where
  \<comment> \<open>\<open>parseInt(s)\<close> with no radix argument; \<open>None\<close> is \<open>NaN\<close>. The result is the
      mathematical integer: the bot only compares it with 0 and 50 and keeps it when
      it lies between them, where it is exact.\<close>
  "parseInt inputString =
     (let (sign, s1) = strip_sign (dropWhile is_white_space inputString);
          (R, s2) = strip_prefix s1;
          z = takeWhile (is_radix_digit R) s2
      in if z = [] then None else Some (sign * int (radix_value R z)))"

definition round_half_even :: "rat \<Rightarrow> int" where
  "round_half_even q =
     (let n = \<lfloor>q\<rfloor>; d = q - of_int n
      in if d < 1 / 2 then n else if 1 / 2 < d then n + 1 else if even n then n else n + 1)"

fun round_at :: "nat \<Rightarrow> rat \<Rightarrow> rat" where
  \<comment> \<open>scale by powers of two until the value has 53 significant bits, round to an
      integer there, and scale back; the first argument bounds the scaling\<close>
  "round_at 0 x = of_int (round_half_even x)"
| "round_at (Suc n) x =
     (if 2 ^ 52 \<le> x then of_int (round_half_even x) else round_at n (2 * x) / 2)"

definition to_double :: "rat \<Rightarrow> rat" where
  \<comment> \<open>the double nearest to \<open>0 \<le> x < 2 ^ 53\<close>, ties to even: the rounding of every
      arithmetic operation on Numbers. The spacing of doubles is never finer than
      \<open>2 ^ -1074\<close>.\<close>
  "to_double x = round_at 1074 x"

definition is_double :: "rat \<Rightarrow> bool" where
  "is_double x = (to_double x = x)"

fun gap_at :: "nat \<Rightarrow> rat \<Rightarrow> rat" where
  "gap_at 0 x = 1"
| "gap_at (Suc n) x = (if 2 ^ 52 \<le> x then 1 else gap_at n (2 * x) / 2)"

definition next_double_gap :: "rat \<Rightarrow> rat" where
  \<comment> \<open>the distance from a double \<open>0 < x < 2 ^ 53\<close> to the next double above it\<close>
  "next_double_gap x = gap_at 1074 x"

fun round_up :: "nat \<Rightarrow> nat list \<Rightarrow> nat list option" where
  \<comment> \<open>the digits written so far, the latest first, rounded up in the last place: a digit
      that cannot be raised is dropped and the one before it is raised; \<open>None\<close> when the
      carry reaches the integer part\<close>
  "round_up radix [] = None"
| "round_up radix (d # ds) =
     (if d + 1 < radix then Some (rev ((d + 1) # ds)) else round_up radix ds)"

fun radix_fraction :: "nat \<Rightarrow> nat \<Rightarrow> rat \<Rightarrow> rat \<Rightarrow> nat list \<Rightarrow> nat list option" where
  \<comment> \<open>the loop that writes the digits of the fraction: it stops when the rest is below
      \<open>delta\<close>, half the distance to the next double scaled as the fraction is, and rounds
      the last digit to even. The first argument is the room of the buffer.\<close>
  "radix_fraction 0 radix fraction delta written = Some (rev written)"
| "radix_fraction (Suc n) radix fraction delta written =
     (let fraction1 = to_double (fraction * of_nat radix);
          delta1 = to_double (delta * of_nat radix);
          digit = nat \<lfloor>fraction1\<rfloor>;
          fraction2 = fraction1 - of_nat digit;
          written1 = digit # written
      in if (1 / 2 < fraction2 \<or> (fraction2 = 1 / 2 \<and> odd digit)) \<and>
            1 < to_double (fraction2 + delta1)
         then round_up radix written1
         else if delta1 \<le> fraction2 then radix_fraction n radix fraction2 delta1 written1
         else Some (rev written1))"

definition toString36 :: "rat \<Rightarrow> string" where
  \<comment> \<open>\<open>r.toString(36)\<close> for a double \<open>0 \<le> r < 1\<close>, as V8, the engine of Node.js, computes
      it: \<open>0\<close> for zero; otherwise the integer part, and after the point the digits of
      the fraction as far as they are needed to tell the double from its neighbours.\<close>
  "toString36 r =
     (if r = 0 then ''0''
      else
        let delta = max (1 / 2 ^ 1074) (to_double (1 / 2 * next_double_gap r))
        in if r < delta then ''0''
           else (case radix_fraction 1100 36 r delta [] of
                   None \<Rightarrow> ''1''
                 | Some digits \<Rightarrow> ''0.'' @ map digit_char digits))"

section \<open>Helpers of the bot\<close>

definition ADMIN_ID :: int where
  "ADMIN_ID = 1299129410"

definition generateOTP :: "rat \<Rightarrow> string" where
  \<comment> \<open>\<open>Math.floor(100000 + Math.random() * 900000).toString()\<close>; the argument is the
      value that \<open>Math.random()\<close> returns\<close>
  "generateOTP r = toString_num \<lfloor>to_double (100000 + to_double (r * 900000))\<rfloor>"

definition generateResourceCode :: "rat \<Rightarrow> string" where
  \<comment> \<open>\<open>`REDM-${Math.random().toString(36).substring(2, 8).toUpperCase()}`\<close>\<close>
  "generateResourceCode r = ''REDM-'' @ toUpperCase (substring 2 8 (toString36 r))"

section \<open>Document references\<close>

fun split_on :: "char \<Rightarrow> string \<Rightarrow> string list" where
  \<comment> \<open>\<open>s.split(c)\<close> for a separator of one character\<close>
  "split_on c [] = [[]]"
| "split_on c (x # xs) =
     (if x = c then [] # split_on c xs
      else (case split_on c xs of [] \<Rightarrow> [[x]] | seg # segs \<Rightarrow> (x # seg) # segs))"

fun has_double_slash :: "string \<Rightarrow> bool" where
  \<comment> \<open>\<open>resourcePath.indexOf('//') >= 0\<close>\<close>
  "has_double_slash (a # b # s) =
     ((a = CHR ''/'' \<and> b = CHR ''/'') \<or> has_double_slash (b # s))"
| "has_double_slash s = False"

definition doc_path :: "string \<Rightarrow> string list option" where
  \<comment> \<open>\<open>collection.doc(documentPath)\<close> of the database client, for a collection at the top
      level: \<open>None\<close> when it throws. The path must be a non-empty text without \<open>//\<close>; it
      is split at the slashes, empty segments are dropped, and together with the segment
      of the collection the number of segments must be even.\<close>
  "doc_path documentPath =
     (if documentPath = [] \<or> has_double_slash documentPath then None
      else let segments = filter (\<lambda>seg. seg \<noteq> []) (split_on CHR ''/'' documentPath)
           in if even (1 + length segments) then Some segments else None)"

section \<open>Data model\<close>

record tg_user =
  user_id :: int
  first_name :: string
  last_name :: "string option"
  username :: "string option"

record tg_contact =
  contact_user_id :: "int option"
  contact_phone_number :: string

text \<open>A document of \<open>pending_verifications\<close>, keyed by the user id as text.\<close>

record pending_verification =
  session_id :: string
  timestamp :: nat

text \<open>
  A document written through \<open>db.collection('otp_sessions').doc(sessionId)\<close>. Its place
  is the path that \<open>sessionId\<close> denotes below the collection; a document of the
  collection itself has a path of one segment, its key.
\<close>

record otp_session =
  otp :: string
  telegram_id :: int
  telegram_name :: string
  telegram_username :: string
  phone_number :: string
  verified :: bool
  created_at :: nat

text \<open>A document of \<open>access_codes\<close>; its key is generated by the store.\<close>

record access_code =
  code :: string
  resourceName :: string
  downloadUrl :: string
  isUsed :: bool
  code_created_at :: nat

datatype step = ASK_COUNT | ASK_NAME | ASK_LINK | PREVIEW

text \<open>
  An entry of the map \<open>addCodeSessions\<close>. The object starts as \<open>{ step: 'ASK_COUNT' }\<close>;
  a property not yet assigned is \<open>None\<close>.
\<close>

record add_session =
  step :: step
  count :: "int option"
  name :: "string option"
  link :: "string option"
  codes :: "string list option"

text \<open>
  The state the handlers work on: the three collections of the document store and the
  in-memory map. A pending verification is kept under the user id as text, which is
  always a single path segment; an OTP session under the path of its reference; the
  documents of \<open>access_codes\<close> get fresh keys and are kept in the order of their creation.
  A write that the server refuses is a failed database call.
\<close>

record world =
  pending_verifications :: "string \<rightharpoonup> pending_verification"
  otp_sessions :: "string list \<rightharpoonup> otp_session"
  access_codes :: "access_code list"
  addCodeSessions :: "int \<rightharpoonup> add_session"

text \<open>
  What a handler cannot decide by itself: whether its \<open>i\<close>-th call of the database
  succeeds, whether the message it awaits inside its \<open>try\<close> block is delivered, the
  value of the \<open>i\<close>-th call of \<open>Math.random()\<close>, and the server's clock.
\<close>

record env =
  db_ok :: "nat \<Rightarrow> bool"
  send_ok :: bool
  random :: "nat \<Rightarrow> rat"
  now :: nat

text \<open>The messages the handlers send, one constructor for each text of the source.\<close>

datatype reply =
    Welcome
  | SecurityCheck
  | SystemError
  | Unauthorized
  | HowManyCodes
  | InvalidNumber
  | EnterResourceName
  | PasteDownloadLink
  | Preview "string option" "string list" string
  | CbSessionExpired
  | Added "int option" string
  | DatabaseError
  | OwnContactError
  | SessionExpired
  | VerificationSuccessful string
  | ContactError

datatype db_op =
    Get_pending string
  | Set_pending string
  | Delete_pending string
  | Set_otp "string list"
  | Batch_commit nat

definition is_write :: "db_op \<Rightarrow> bool" where
  "is_write op = (case op of Get_pending k \<Rightarrow> False | _ \<Rightarrow> True)"

text \<open>
  The result of a handler: the state it leaves, the messages it sent or tried to send,
  the database calls it made, all in order, and whether it called \<open>next()\<close>.
\<close>

record outcome =
  after :: world
  replies :: "reply list"
  db_ops :: "db_op list"
  called_next :: bool

section \<open>Handlers\<close>

definition start_handler :: "env \<Rightarrow> tg_user \<Rightarrow> string \<Rightarrow> world \<Rightarrow> outcome" where
  \<comment> \<open>\<open>bot.start\<close>; an absent payload is the empty text\<close>
  "start_handler e user sessionId w =
     (if sessionId = [] then
        \<lparr>after = w, replies = [Welcome], db_ops = [], called_next = False\<rparr>
      else
        let key = toString_num (user_id user) in
        if \<not> db_ok e 0 then
          \<lparr>after = w, replies = [SystemError], db_ops = [Set_pending key], called_next = False\<rparr>
        else
          let w1 = w\<lparr>pending_verifications := (pending_verifications w)
                       (key \<mapsto> \<lparr>session_id = sessionId, timestamp = now e\<rparr>)\<rparr>
          in \<lparr>after = w1,
              replies = (if send_ok e then [SecurityCheck] else [SecurityCheck, SystemError]),
              db_ops = [Set_pending key], called_next = False\<rparr>)"

definition addcodes_command :: "tg_user \<Rightarrow> world \<Rightarrow> outcome" where
  \<comment> \<open>\<open>bot.command('addcodes')\<close>\<close>
  "addcodes_command user w =
     (if user_id user \<noteq> ADMIN_ID then
        \<lparr>after = w, replies = [Unauthorized], db_ops = [], called_next = False\<rparr>
      else
        \<lparr>after = w\<lparr>addCodeSessions := (addCodeSessions w)
                  (user_id user \<mapsto>
                     \<lparr>step = ASK_COUNT, count = None, name = None, link = None, codes = None\<rparr>)\<rparr>,
         replies = [HowManyCodes], db_ops = [], called_next = False\<rparr>)"

definition set_session :: "int \<Rightarrow> add_session \<Rightarrow> world \<Rightarrow> world" where
  "set_session uid session w = w\<lparr>addCodeSessions := (addCodeSessions w)(uid \<mapsto> session)\<rparr>"

definition generate_codes :: "env \<Rightarrow> int option \<Rightarrow> string list" where
  \<comment> \<open>\<open>Array.from({ length: session.count }, () => generateResourceCode())\<close>; an
      undefined length is 0\<close>
  "generate_codes e cnt =
     (case cnt of
        None \<Rightarrow> []
      | Some c \<Rightarrow> map (\<lambda>i. generateResourceCode (random e i)) [0..<nat c])"

definition text_handler :: "env \<Rightarrow> tg_user \<Rightarrow> string \<Rightarrow> world \<Rightarrow> outcome" where
  \<comment> \<open>\<open>bot.on('text')\<close>\<close>
  "text_handler e user text w =
     (case addCodeSessions w (user_id user) of
        None \<Rightarrow> \<lparr>after = w, replies = [], db_ops = [], called_next = True\<rparr>
      | Some session \<Rightarrow>
          let input = trim text in
          (case step session of
             ASK_COUNT \<Rightarrow>
               (case parseInt input of
                  None \<Rightarrow>
                    \<lparr>after = w, replies = [InvalidNumber], db_ops = [], called_next = False\<rparr>
                | Some cnt \<Rightarrow>
                    if cnt \<le> 0 \<or> cnt > 50 then
                      \<lparr>after = w, replies = [InvalidNumber], db_ops = [], called_next = False\<rparr>
                    else
                      \<lparr>after = set_session (user_id user)
                                 (session\<lparr>count := Some cnt, step := ASK_NAME\<rparr>) w,
                       replies = [EnterResourceName], db_ops = [], called_next = False\<rparr>)
           | ASK_NAME \<Rightarrow>
               \<lparr>after = set_session (user_id user)
                          (session\<lparr>name := Some input, step := ASK_LINK\<rparr>) w,
                replies = [PasteDownloadLink], db_ops = [], called_next = False\<rparr>
           | ASK_LINK \<Rightarrow>
               let cs = generate_codes e (count session) in
               \<lparr>after = set_session (user_id user)
                          (session\<lparr>link := Some input, step := PREVIEW, codes := Some cs\<rparr>) w,
                replies = [Preview (name session) cs input], db_ops = [],
                called_next = False\<rparr>
           | PREVIEW \<Rightarrow>
               \<lparr>after = w, replies = [], db_ops = [], called_next = False\<rparr>))"

definition new_access_codes :: "env \<Rightarrow> add_session \<Rightarrow> string list \<Rightarrow> access_code list option" where
  \<comment> \<open>the documents that \<open>session.codes.forEach\<close> puts into the batch, one for each
      code; \<open>batch.set\<close> throws on a field that is \<open>undefined\<close>\<close>
  "new_access_codes e session cs =
     (case (name session, link session) of
        (Some n, Some l) \<Rightarrow>
          Some (map (\<lambda>c. \<lparr>code = c, resourceName = n, downloadUrl = l, isUsed = False,
                           code_created_at = now e\<rparr>) cs)
      | _ \<Rightarrow> if cs = [] then Some [] else None)"

definition confirm_add_action :: "env \<Rightarrow> tg_user \<Rightarrow> world \<Rightarrow> outcome" where
  \<comment> \<open>\<open>bot.action('confirm_add')\<close>. Every exception inside the \<open>try\<close> block ends in the
      same \<open>catch\<close>: \<open>forEach\<close> on codes that are \<open>undefined\<close>, a document that
      \<open>batch.set\<close> refuses, a failed \<open>batch.commit()\<close>, which writes all documents of the
      batch or none, and a failed \<open>editMessageText\<close>.\<close>
  "confirm_add_action e user w =
     (case addCodeSessions w (user_id user) of
        None \<Rightarrow> \<lparr>after = w, replies = [CbSessionExpired], db_ops = [], called_next = False\<rparr>
      | Some session \<Rightarrow>
          (case codes session of
             None \<Rightarrow> \<lparr>after = w, replies = [DatabaseError], db_ops = [], called_next = False\<rparr>
           | Some cs \<Rightarrow>
               (case new_access_codes e session cs of
                  None \<Rightarrow>
                    \<lparr>after = w, replies = [DatabaseError], db_ops = [], called_next = False\<rparr>
                | Some docs \<Rightarrow>
                    if \<not> db_ok e 0 then
                      \<lparr>after = w, replies = [DatabaseError],
                       db_ops = [Batch_commit (length docs)], called_next = False\<rparr>
                    else
                      let w1 = w\<lparr>access_codes := access_codes w @ docs\<rparr>;
                          added = Added (count session) (case name session of None \<Rightarrow> [] | Some n \<Rightarrow> n)
                      in if \<not> send_ok e then
                           \<lparr>after = w1, replies = [added, DatabaseError],
                            db_ops = [Batch_commit (length docs)], called_next = False\<rparr>
                         else
                           \<lparr>after = w1\<lparr>addCodeSessions :=
                                          (addCodeSessions w1)(user_id user := None)\<rparr>,
                            replies = [added],
                            db_ops = [Batch_commit (length docs)], called_next = False\<rparr>)))"

definition telegram_name_of :: "tg_user \<Rightarrow> string" where
  \<comment> \<open>\<open>[user.first_name, user.last_name].filter(Boolean).join(' ')\<close>\<close>
  "telegram_name_of user =
     join '' ''
       (filter (\<lambda>s. s \<noteq> [])
          (first_name user # (case last_name user of None \<Rightarrow> [] | Some l \<Rightarrow> [l])))"

definition telegram_username_of :: "tg_user \<Rightarrow> string" where
  \<comment> \<open>\<open>user.username || 'No Username'\<close>\<close>
  "telegram_username_of user =
     (case username user of
        None \<Rightarrow> ''No Username''
      | Some n \<Rightarrow> if n = [] then ''No Username'' else n)"

definition contact_handler :: "env \<Rightarrow> tg_user \<Rightarrow> tg_contact \<Rightarrow> world \<Rightarrow> outcome" where
  \<comment> \<open>\<open>bot.on('contact')\<close>; the database calls are the read of the pending document,
      the write of the OTP session and the deletion of the pending document. A session
      id that is no document path makes \<open>doc(sessionId)\<close> throw before the write is issued.\<close>
  "contact_handler e user contact w =
     (if contact_user_id contact \<noteq> Some (user_id user) then
        \<lparr>after = w, replies = [OwnContactError], db_ops = [], called_next = False\<rparr>
      else
        let key = toString_num (user_id user) in
        if \<not> db_ok e 0 then
          \<lparr>after = w, replies = [ContactError], db_ops = [Get_pending key], called_next = False\<rparr>
        else
          (case pending_verifications w key of
             None \<Rightarrow>
               \<lparr>after = w, replies = [SessionExpired], db_ops = [Get_pending key],
                called_next = False\<rparr>
           | Some pendingDoc \<Rightarrow>
               let sessionId = session_id pendingDoc;
                   otp_code = generateOTP (random e 0)
               in (case doc_path sessionId of
                     None \<Rightarrow>
                       \<lparr>after = w, replies = [ContactError], db_ops = [Get_pending key],
                        called_next = False\<rparr>
                   | Some path \<Rightarrow>
                       if \<not> db_ok e 1 then
                         \<lparr>after = w, replies = [ContactError],
                          db_ops = [Get_pending key, Set_otp path], called_next = False\<rparr>
                       else
                         let w1 = w\<lparr>otp_sessions := (otp_sessions w)
                                      (path \<mapsto>
                                         \<lparr>otp = otp_code,
                                          telegram_id = user_id user,
                                          telegram_name = telegram_name_of user,
                                          telegram_username = telegram_username_of user,
                                          phone_number = contact_phone_number contact,
                                          verified = False,
                                          created_at = now e\<rparr>)\<rparr>
                         in if \<not> db_ok e 2 then
                              \<lparr>after = w1, replies = [ContactError],
                               db_ops = [Get_pending key, Set_otp path, Delete_pending key],
                               called_next = False\<rparr>
                            else
                              \<lparr>after = w1\<lparr>pending_verifications :=
                                             (pending_verifications w1)(key := None)\<rparr>,
                               replies = (if send_ok e then [VerificationSuccessful otp_code]
                                          else [VerificationSuccessful otp_code, ContactError]),
                               db_ops = [Get_pending key, Set_otp path, Delete_pending key],
                               called_next = False\<rparr>)))"

section \<open>Notions of the specification\<close>

definition is_decimal_numeral :: "string \<Rightarrow> bool" where
  "is_decimal_numeral s = (s \<noteq> [] \<and> list_all (is_radix_digit 10) s)"

definition positive_integer_upto_50 :: "string \<Rightarrow> bool" where
  \<comment> \<open>the specification's "a positive integer \<open>\<le>\<close> 50", said of a text: a decimal
      numeral whose value is at least 1 and at most 50\<close>
  "positive_integer_upto_50 s =
     (is_decimal_numeral s \<and> 1 \<le> radix_value 10 s \<and> radix_value 10 s \<le> 50)"

definition is_upper_alnum :: "char \<Rightarrow> bool" where
  \<comment> \<open>the character class \<open>[A-Z0-9]\<close>\<close>
  "is_upper_alnum c =
     (let n = (of_char c :: nat) in (48 \<le> n \<and> n \<le> 57) \<or> (65 \<le> n \<and> n \<le> 90))"

definition well_formed_code :: "string \<Rightarrow> bool" where
  \<comment> \<open>the pattern \<open>^REDM-[A-Z0-9]{6}$\<close>\<close>
  "well_formed_code s =
     (take 5 s = ''REDM-'' \<and> length (drop 5 s) = 6 \<and> list_all is_upper_alnum (drop 5 s))"

definition untrimmed :: "string \<Rightarrow> bool" where
  \<comment> \<open>the text begins or ends with white space\<close>
  "untrimmed s = (s \<noteq> [] \<and> (is_white_space (hd s) \<or> is_white_space (last s)))"

section \<open>Example inputs\<close>

definition all_ok :: env where
  "all_ok = \<lparr>db_ok = (\<lambda>i. True), send_ok = True, random = (\<lambda>i. 1 / 2), now = 1700000000\<rparr>"

definition db_down :: env where
  "db_down = \<lparr>db_ok = (\<lambda>i. False), send_ok = True, random = (\<lambda>i. 1 / 2), now = 1700000000\<rparr>"

definition alice :: tg_user where
  "alice = \<lparr>user_id = 42, first_name = ''Alice'', last_name = None, username = None\<rparr>"

definition the_admin :: tg_user where
  "the_admin =
     \<lparr>user_id = ADMIN_ID, first_name = ''Sid'', last_name = None, username = Some ''sid''\<rparr>"

definition empty_world :: world where
  "empty_world =
     \<lparr>pending_verifications = Map.empty, otp_sessions = Map.empty, access_codes = [],
      addCodeSessions = Map.empty\<rparr>"

definition alice_pending :: world where
  \<comment> \<open>Alice has opened the deep link of session \<open>abc\<close>\<close>
  "alice_pending =
     empty_world\<lparr>pending_verifications :=
       [''42'' \<mapsto> \<lparr>session_id = ''abc'', timestamp = 1699999999\<rparr>]\<rparr>"

definition alice_pending_slash :: world where
  \<comment> \<open>Alice has sent \<open>/start a/b\<close>\<close>
  "alice_pending_slash =
     empty_world\<lparr>pending_verifications :=
       [''42'' \<mapsto> \<lparr>session_id = ''a/b'', timestamp = 1700000000\<rparr>]\<rparr>"

definition send_down :: env where
  \<comment> \<open>the database answers, the awaited message is not delivered\<close>
  "send_down = \<lparr>db_ok = (\<lambda>i. True), send_ok = False, random = (\<lambda>i. 1 / 2), now = 1700000000\<rparr>"

definition premium_code :: "string \<Rightarrow> access_code" where
  "premium_code c =
     \<lparr>code = c, resourceName = ''Premium Pack'', downloadUrl = ''http://example.com/x'',
      isUsed = False, code_created_at = 1700000000\<rparr>"

definition bobs_contact :: tg_contact where
  "bobs_contact = \<lparr>contact_user_id = Some 43, contact_phone_number = ''+15550100''\<rparr>"

definition alices_contact :: tg_contact where
  "alices_contact = \<lparr>contact_user_id = Some 42, contact_phone_number = ''+15550142''\<rparr>"

definition fresh_session :: add_session where
  "fresh_session = \<lparr>step = ASK_COUNT, count = None, name = None, link = None, codes = None\<rparr>"

definition preview_session :: add_session where
  "preview_session =
     \<lparr>step = PREVIEW, count = Some 2, name = Some ''Premium Pack'',
      link = Some ''http://example.com/x'', codes = Some [''REDM-I'', ''REDM-9'']\<rparr>"

definition name_session :: add_session where
  "name_session = \<lparr>step = ASK_NAME, count = Some 3, name = None, link = None, codes = None\<rparr>"

definition world_with :: "add_session \<Rightarrow> world" where
  \<comment> \<open>the admin's dialog is in the given state\<close>
  "world_with session = empty_world\<lparr>addCodeSessions := [ADMIN_ID \<mapsto> session]\<rparr>"

section \<open>Facts about the built-ins\<close>

subsection \<open>Trimming and parsing\<close>

lemma trim_id:
  assumes "\<not> untrimmed s"
  shows "trim s = s"
proof (cases "s = []")
  case True
  then show ?thesis by (simp add: trim_def)
next
  case False
  with assms have h: "\<not> is_white_space (hd s)" and l: "\<not> is_white_space (last s)"
    by (simp_all add: untrimmed_def)
  from h have "dropWhile is_white_space s = s"
    by (simp add: dropWhile_eq_self_iff)
  moreover from l False have "dropWhile is_white_space (rev s) = rev s"
    by (simp add: dropWhile_eq_self_iff hd_rev)
  ultimately show ?thesis by (simp add: trim_def)
qed

lemma digit_not_white_space: "is_radix_digit 10 c \<Longrightarrow> \<not> is_white_space c"
  by (auto simp add: is_radix_digit_def digit_value_def is_white_space_def Let_def split: if_splits)

lemma digit_not_sign: "is_radix_digit 10 c \<Longrightarrow> c \<noteq> CHR ''-'' \<and> c \<noteq> CHR ''+''"
  by (auto simp add: is_radix_digit_def digit_value_def Let_def)

lemma digit_not_x: "is_radix_digit 10 c \<Longrightarrow> c \<noteq> CHR ''x'' \<and> c \<noteq> CHR ''X''"
  by (auto simp add: is_radix_digit_def digit_value_def Let_def)

lemma strip_sign_numeral: "is_decimal_numeral s \<Longrightarrow> strip_sign s = (1, s)"
  by (cases s) (auto simp add: is_decimal_numeral_def strip_sign_def dest: digit_not_sign)

lemma strip_prefix_numeral: "is_decimal_numeral s \<Longrightarrow> strip_prefix s = (10, s)"
  by (auto simp add: is_decimal_numeral_def strip_prefix_def dest: digit_not_x split: list.splits)

lemma parseInt_numeral:
  assumes "is_decimal_numeral s"
  shows "parseInt s = Some (int (radix_value 10 s))"
proof -
  from assms have ne: "s \<noteq> []" and all: "list_all (is_radix_digit 10) s"
    by (simp_all add: is_decimal_numeral_def)
  from ne all have "\<not> is_white_space (hd s)"
    by (cases s) (auto dest: digit_not_white_space)
  then have dw: "dropWhile is_white_space s = s"
    by (simp add: dropWhile_eq_self_iff)
  from all have tw: "takeWhile (is_radix_digit 10) s = s"
    by (simp add: takeWhile_eq_all_conv list_all_iff)
  show ?thesis
    by (simp add: parseInt_def dw strip_sign_numeral [OF assms] strip_prefix_numeral [OF assms] tw ne)
qed

subsection \<open>Rounding to a double\<close>

lemma round_half_even_of_int: "round_half_even (of_int i) = i"
  by (simp add: round_half_even_def)

lemma round_half_even_near:
  "of_int (round_half_even q) \<le> q + 1 / 2 \<and> q - 1 / 2 \<le> of_int (round_half_even q)"
proof -
  let ?n = "\<lfloor>q\<rfloor>"
  have lo: "of_int ?n \<le> q" and hi: "q < of_int ?n + 1" by linarith+
  have "round_half_even q = ?n \<and> q - of_int ?n \<le> 1 / 2 \<or>
        round_half_even q = ?n + 1 \<and> 1 / 2 \<le> q - of_int ?n"
    by (simp add: round_half_even_def Let_def)
  then consider
      (down) "(of_int (round_half_even q) :: rat) = of_int ?n" "q - of_int ?n \<le> 1 / 2"
    | (up) "(of_int (round_half_even q) :: rat) = of_int ?n + 1" "1 / 2 \<le> q - of_int ?n"
    by auto
  then show ?thesis
  proof cases
    case down
    with lo hi show ?thesis by linarith
  next
    case up
    with lo hi show ?thesis by linarith
  qed
qed

lemma round_half_even_mono:
  assumes "x \<le> y"
  shows "round_half_even x \<le> round_half_even y"
proof (rule ccontr)
  assume "\<not> round_half_even x \<le> round_half_even y"
  then have "round_half_even y + 1 \<le> round_half_even x" by simp
  then have gap: "(of_int (round_half_even y) :: rat) + 1 \<le> of_int (round_half_even x)"
    by (metis of_int_1 of_int_add of_int_le_iff)
  from round_half_even_near [of x] round_half_even_near [of y] gap assms
  have "x = y" by linarith
  with \<open>\<not> round_half_even x \<le> round_half_even y\<close> show False by simp
qed

lemma round_at_of_int: "round_at n (of_int i) = of_int i"
proof (induction n arbitrary: i)
  case 0
  show ?case by (simp add: round_half_even_of_int)
next
  case (Suc n)
  have "round_at n (2 * of_int i) = 2 * of_int i"
    using Suc [of "2 * i"] by simp
  then show ?case by (simp add: round_half_even_of_int)
qed

lemma round_at_numeral: "round_at n (numeral k) = numeral k"
  using round_at_of_int [of n "numeral k"] by simp

lemma round_at_mono: "x \<le> y \<Longrightarrow> round_at n x \<le> round_at n y"
proof (induction n arbitrary: x y)
  case 0
  then show ?case by (simp add: round_half_even_mono)
next
  case (Suc n)
  consider "2 ^ 52 \<le> x" | "x < 2 ^ 52" "2 ^ 52 \<le> y" | "y < 2 ^ 52"
    by linarith
  then show ?case
  proof cases
    case 1
    with Suc.prems have "2 ^ 52 \<le> y" by linarith
    with 1 Suc.prems show ?thesis by (simp add: round_half_even_mono)
  next
    case 2
    have "round_at n (2 * x) \<le> round_at n (of_int (2 ^ 53))"
      using 2(1) by (intro Suc.IH) simp
    then have a: "round_at n (2 * x) / 2 \<le> 2 ^ 52"
      by (simp add: round_at_numeral)
    have "round_half_even (of_int (2 ^ 52)) \<le> round_half_even y"
      using 2(2) by (intro round_half_even_mono) simp
    then have b: "(2 ^ 52 :: rat) \<le> of_int (round_half_even y)"
      unfolding round_half_even_of_int by (metis of_int_le_iff of_int_numeral of_int_power)
    from a b 2 show ?thesis by simp
  next
    case 3
    with Suc.prems have "x < 2 ^ 52" by linarith
    moreover have "round_at n (2 * x) \<le> round_at n (2 * y)"
      using Suc.prems by (intro Suc.IH) simp
    ultimately show ?thesis using 3 by simp
  qed
qed

lemma round_at_big: "2 ^ 52 \<le> x \<Longrightarrow> round_at n x = of_int (round_half_even x)"
  by (cases n) simp_all

lemma round_at_scale:
  "(\<And>i. i < k \<Longrightarrow> x * 2 ^ i < 2 ^ 52) \<Longrightarrow> round_at (n + k) x = round_at n (x * 2 ^ k) / 2 ^ k"
proof (induction k arbitrary: x)
  case 0
  show ?case by simp
next
  case (Suc k)
  from Suc.prems [of 0] have small: "x < 2 ^ 52" by simp
  have "round_at (n + k) (2 * x) = round_at n (2 * x * 2 ^ k) / 2 ^ k"
  proof (rule Suc.IH)
    fix i assume "i < k"
    then have "x * 2 ^ Suc i < 2 ^ 52" by (intro Suc.prems) simp
    then show "2 * x * 2 ^ i < 2 ^ 52" by (simp add: mult.commute mult.left_commute)
  qed
  moreover have e: "2 * x * 2 ^ k = x * 2 ^ Suc k" by simp
  ultimately have ih: "round_at (n + k) (2 * x) = round_at n (x * 2 ^ Suc k) / 2 ^ k"
    by (simp only:)
  have "round_at (n + Suc k) x = round_at (n + k) (2 * x) / 2"
    using small by simp
  also have "\<dots> = round_at n (x * 2 ^ Suc k) / 2 ^ k / 2"
    by (simp only: ih)
  also have "\<dots> = round_at n (x * 2 ^ Suc k) / 2 ^ Suc k"
    by simp
  finally show ?case .
qed

lemma round_at_dyadic:
  "m \<le> 2 ^ 53 \<Longrightarrow> k \<le> n \<Longrightarrow> round_at n (of_int m / 2 ^ k) = of_int m / 2 ^ k"
proof (induction k arbitrary: n)
  case 0
  show ?case by (simp add: round_at_of_int)
next
  case (Suc k)
  from Suc.prems(2) obtain n' where n: "n = Suc n'" and kn: "k \<le> n'"
    by (cases n) auto
  let ?x = "(of_int m :: rat) / 2 ^ Suc k"
  have le: "(of_int m :: rat) \<le> 2 ^ 53"
    using Suc.prems(1) by (metis of_int_le_iff of_int_numeral of_int_power)
  have "?x \<le> 2 ^ 53 / 2 ^ Suc k"
    using le by (intro divide_right_mono) simp_all
  also have "\<dots> \<le> 2 ^ 53 / (2 ^ 1 :: rat)"
    by (intro divide_left_mono power_increasing) simp_all
  finally have x_le: "?x \<le> 2 ^ 52" by simp
  show ?case
  proof (cases "2 ^ 52 \<le> ?x")
    case True
    with x_le have "?x = of_int (2 ^ 52)" by simp
    then show ?thesis
      unfolding n by (simp only: round_at_of_int)
  next
    case False
    have "round_at n' (2 * ?x) = 2 * ?x"
      using Suc.IH [OF Suc.prems(1) kn] by simp
    with False show ?thesis unfolding n by simp
  qed
qed

lemma double_below_1:
  assumes "is_double r" and "r < 1"
  shows "r \<le> 1 - 1 / 2 ^ 53"
proof (cases "r < 1 / 2")
  case True
  then show ?thesis by simp
next
  case False
  have small: "r * 2 ^ i < 2 ^ 52" if "i < 53" for i
  proof -
    have "r * 2 ^ i < 1 * 2 ^ i" using assms(2) by (intro mult_strict_right_mono) simp_all
    also have "\<dots> \<le> 1 * 2 ^ 52" using that by (intro mult_left_mono power_increasing) simp_all
    also have "\<dots> = 2 ^ 52" by simp
    finally show ?thesis .
  qed
  have "round_at (1021 + 53) r = round_at 1021 (r * 2 ^ 53) / 2 ^ 53"
    using small by (rule round_at_scale)
  moreover have "2 ^ 52 \<le> r * 2 ^ 53" using False by simp
  then have "round_at 1021 (r * 2 ^ 53) = of_int (round_half_even (r * 2 ^ 53))"
    by (rule round_at_big)
  ultimately have "to_double r = of_int (round_half_even (r * 2 ^ 53)) / 2 ^ 53"
    by (simp add: to_double_def)
  with assms(1) have r: "r = of_int (round_half_even (r * 2 ^ 53)) / 2 ^ 53"
    by (simp add: is_double_def)
  define m where "m = round_half_even (r * 2 ^ 53)"
  from r have rm: "r = of_int m / 2 ^ 53" by (simp add: m_def)
  with assms(2) have "(of_int m :: rat) < of_int (2 ^ 53)" by simp
  then have "m < 2 ^ 53" by (simp only: of_int_less_iff)
  then have "m \<le> 2 ^ 53 - 1" by simp
  then have "(of_int m :: rat) \<le> of_int (2 ^ 53 - 1)" by (simp only: of_int_le_iff)
  then show ?thesis by (simp add: rm field_simps)
qed

subsection \<open>The number of an OTP\<close>

lemma to_double_mono: "x \<le> y \<Longrightarrow> to_double x \<le> to_double y"
  by (simp add: to_double_def round_at_mono)

lemma to_double_numeral: "to_double (numeral k) = numeral k"
  by (simp add: to_double_def round_at_numeral)

lemma to_double_0: "to_double 0 = 0"
  using round_at_of_int [of 1074 0] by (simp add: to_double_def)

lemma product_below:
  assumes "r \<le> 1 - 1 / 2 ^ 53"
  shows "to_double (r * 900000) \<le> 900000 - 1 / 2 ^ 33"
proof -
  define x :: rat where "x = (1 - 1 / 2 ^ 53) * 900000"
  have x20: "x < 2 ^ 20" by (simp add: x_def)
  have small: "x * 2 ^ i < 2 ^ 52" if "i < 33" for i
  proof -
    have "x * 2 ^ i < 2 ^ 20 * 2 ^ i" using x20 by (intro mult_strict_right_mono) simp_all
    also have "\<dots> \<le> 2 ^ 20 * 2 ^ 32" using that by (intro mult_left_mono power_increasing) simp_all
    also have "\<dots> = 2 ^ 52" by simp
    finally show ?thesis .
  qed
  have "round_at (1041 + 33) x = round_at 1041 (x * 2 ^ 33) / 2 ^ 33"
    using small by (rule round_at_scale)
  moreover have "2 ^ 52 \<le> x * 2 ^ 33" by (simp add: x_def)
  then have "round_at 1041 (x * 2 ^ 33) = of_int (round_half_even (x * 2 ^ 33))"
    by (rule round_at_big)
  ultimately have td: "to_double x = of_int (round_half_even (x * 2 ^ 33)) / 2 ^ 33"
    by (simp add: to_double_def)
  have "of_int (round_half_even (x * 2 ^ 33)) \<le> x * 2 ^ 33 + 1 / 2"
    using round_half_even_near [of "x * 2 ^ 33"] by simp
  also have "\<dots> < of_int 7730941132800000" by (simp add: x_def)
  finally have "round_half_even (x * 2 ^ 33) < 7730941132800000"
    by (simp only: of_int_less_iff)
  then have "round_half_even (x * 2 ^ 33) \<le> 7730941132799999" by simp
  then have "(of_int (round_half_even (x * 2 ^ 33)) :: rat) \<le> of_int 7730941132799999"
    by (simp only: of_int_le_iff)
  then have "to_double x \<le> 7730941132799999 / 2 ^ 33"
    unfolding td by (simp add: divide_right_mono)
  also have "\<dots> = 900000 - 1 / 2 ^ 33" by simp
  finally have "to_double x \<le> 900000 - 1 / 2 ^ 33" .
  moreover have "to_double (r * 900000) \<le> to_double x"
    using assms by (intro to_double_mono) (simp add: x_def)
  ultimately show ?thesis by simp
qed

lemma otp_number_range:
  assumes "is_double r" and "0 \<le> r" and "r < 1"
  shows "100000 \<le> \<lfloor>to_double (100000 + to_double (r * 900000))\<rfloor> \<and>
         \<lfloor>to_double (100000 + to_double (r * 900000))\<rfloor> \<le> 999999"
proof -
  define y where "y = to_double (r * 900000)"
  have "to_double 0 \<le> y" unfolding y_def using assms(2) by (intro to_double_mono) simp
  then have y0: "0 \<le> y" by (simp add: to_double_0)
  have y1: "y \<le> 900000 - 1 / 2 ^ 33"
    unfolding y_def using assms(1,3) by (intro product_below double_below_1)
  have "to_double 100000 \<le> to_double (100000 + y)"
    using y0 by (intro to_double_mono) simp
  then have lo: "100000 \<le> to_double (100000 + y)" by (simp add: to_double_numeral)
  have "to_double (100000 + y) \<le> to_double (of_int 8589934591999999 / 2 ^ 33)"
    using y1 by (intro to_double_mono) simp
  also have "\<dots> = of_int 8589934591999999 / 2 ^ 33"
    unfolding to_double_def by (rule round_at_dyadic) simp_all
  also have "\<dots> < 1000000" by simp
  finally have hi: "to_double (100000 + y) < 1000000" .
  from lo have "100000 \<le> \<lfloor>to_double (100000 + y)\<rfloor>" by (simp add: le_floor_iff)
  moreover from hi have "\<lfloor>to_double (100000 + y)\<rfloor> < 1000000" by (simp add: floor_less_iff)
  ultimately show ?thesis by (simp add: y_def)
qed

subsection \<open>Decimal digits\<close>

lemma digit_char_value: "d < 10 \<Longrightarrow> digit_value (digit_char d) = Some d"
proof -
  assume "d < 10"
  then have "d \<in> {0, 1, 2, 3, 4, 5, 6, 7, 8, 9}" by auto
  then show ?thesis
    by (elim insertE) (simp_all add: digit_char_def digit_value_def)
qed

lemma digit_char_digit: "d < 10 \<Longrightarrow> is_radix_digit 10 (digit_char d)"
  by (simp add: is_radix_digit_def digit_char_value)

lemma radix_value_snoc:
  "radix_value R (z @ [c]) = radix_value R z * R + (case digit_value c of None \<Rightarrow> 0 | Some d \<Rightarrow> d)"
  by (simp add: radix_value_def)

lemma digits10_below_10: "n < 10 \<Longrightarrow> digits10 n = [digit_char n]"
  by (simp add: digits10.simps)

lemma digits10_from_10: "10 \<le> n \<Longrightarrow> digits10 n = digits10 (n div 10) @ [digit_char (n mod 10)]"
  by (subst digits10.simps) simp

lemma digits10_digits: "list_all (is_radix_digit 10) (digits10 n)"
proof (induction n rule: digits10.induct)
  case (1 n)
  show ?case
  proof (cases "n < 10")
    case True
    then show ?thesis by (simp add: digits10_below_10 digit_char_digit)
  next
    case False
    with 1 show ?thesis by (simp add: digits10_from_10 digit_char_digit)
  qed
qed

lemma radix_value_digits10: "radix_value 10 (digits10 n) = n"
proof (induction n rule: digits10.induct)
  case (1 n)
  show ?case
  proof (cases "n < 10")
    case True
    then show ?thesis
      using radix_value_snoc [of 10 "[]" "digit_char n"]
      by (simp add: digits10_below_10 digit_char_value radix_value_def)
  next
    case False
    with 1 show ?thesis by (simp add: digits10_from_10 radix_value_snoc digit_char_value)
  qed
qed

lemma digits10_not_empty: "digits10 n \<noteq> []"
  by (subst digits10.simps) simp

lemma digits10_length: "10 ^ k \<le> n \<Longrightarrow> n < 10 ^ Suc k \<Longrightarrow> length (digits10 n) = Suc k"
proof (induction k arbitrary: n)
  case 0
  then show ?case by (simp add: digits10_below_10)
next
  case (Suc k)
  have "(1::nat) \<le> 10 ^ k" by simp
  moreover from Suc.prems(1) have "10 * 10 ^ k \<le> n" by simp
  ultimately have ge: "10 \<le> n" by linarith
  have "10 ^ k \<le> n div 10" using Suc.prems(1) by (simp add: less_eq_div_iff_mult_less_eq mult.commute)
  moreover have "n div 10 < 10 ^ Suc k" using Suc.prems(2) by (simp add: div_less_iff_less_mult mult.commute)
  ultimately have "length (digits10 (n div 10)) = Suc k" by (rule Suc.IH)
  then show ?case by (simp add: digits10_from_10 [OF ge])
qed

lemma digits10_no_leading_zero: "0 < n \<Longrightarrow> hd (digits10 n) \<noteq> CHR ''0''"
proof (induction n rule: digits10.induct)
  case (1 n)
  show ?case
  proof (cases "n < 10")
    case True
    with 1(2) have "n \<in> {1, 2, 3, 4, 5, 6, 7, 8, 9}" by auto
    then show ?thesis
      by (elim insertE) (simp_all add: digits10.simps digit_char_def)
  next
    case False
    then have "0 < n div 10" by (simp add: div_greater_zero_iff)
    with 1(1) False have "hd (digits10 (n div 10)) \<noteq> CHR ''0''" by simp
    with False show ?thesis by (simp add: digits10_from_10 digits10_not_empty)
  qed
qed

lemma half_is_double: "is_double (1 / 2)"
proof -
  have "round_at 1074 (of_int 1 / 2 ^ 1) = of_int 1 / 2 ^ 1"
    by (rule round_at_dyadic) simp_all
  then show ?thesis by (simp add: is_double_def to_double_def)
qed


subsection \<open>Resource codes\<close>

lemma gap_at_big: "2 ^ 52 \<le> x \<Longrightarrow> gap_at n x = 1"
  by (cases n) simp_all

lemma gap_at_scale:
  "(\<And>i. i < k \<Longrightarrow> x * 2 ^ i < 2 ^ 52) \<Longrightarrow> gap_at (n + k) x = gap_at n (x * 2 ^ k) / 2 ^ k"
proof (induction k arbitrary: x)
  case 0
  show ?case by simp
next
  case (Suc k)
  from Suc.prems [of 0] have small: "x < 2 ^ 52" by simp
  have "gap_at (n + k) (2 * x) = gap_at n (2 * x * 2 ^ k) / 2 ^ k"
  proof (rule Suc.IH)
    fix i assume "i < k"
    then have "x * 2 ^ Suc i < 2 ^ 52" by (intro Suc.prems) simp
    then show "2 * x * 2 ^ i < 2 ^ 52" by (simp add: mult.commute mult.left_commute)
  qed
  moreover have e: "2 * x * 2 ^ k = x * 2 ^ Suc k" by simp
  ultimately have ih: "gap_at (n + k) (2 * x) = gap_at n (x * 2 ^ Suc k) / 2 ^ k"
    by (simp only:)
  have "gap_at (n + Suc k) x = gap_at (n + k) (2 * x) / 2"
    using small by simp
  also have "\<dots> = gap_at n (x * 2 ^ Suc k) / 2 ^ k / 2"
    by (simp only: ih)
  also have "\<dots> = gap_at n (x * 2 ^ Suc k) / 2 ^ Suc k"
    by simp
  finally show ?case .
qed

lemma next_double_gap_half: "next_double_gap (1 / 2) = 1 / 2 ^ 53"
proof -
  have small: "(1 / 2 :: rat) * 2 ^ i < 2 ^ 52" if "i < 53" for i
  proof -
    have "(1 / 2 :: rat) * 2 ^ i < 1 * 2 ^ i" by (intro mult_strict_right_mono) simp_all
    also have "\<dots> \<le> 1 * 2 ^ 52" using that by (intro mult_left_mono power_increasing) simp_all
    also have "\<dots> = 2 ^ 52" by simp
    finally show ?thesis .
  qed
  have "gap_at (1021 + 53) (1 / 2) = gap_at 1021 (1 / 2 * 2 ^ 53) / 2 ^ 53"
    using small by (rule gap_at_scale)
  moreover have "gap_at 1021 (1 / 2 * 2 ^ 53) = 1"
    by (rule gap_at_big) simp
  ultimately show ?thesis by (simp add: next_double_gap_def)
qed

lemma to_double_dyadic: "m \<le> 2 ^ 53 \<Longrightarrow> k \<le> 1074 \<Longrightarrow> to_double (of_int m / 2 ^ k) = of_int m / 2 ^ k"
  unfolding to_double_def by (rule round_at_dyadic)

lemma radix_fraction_half: "radix_fraction 1100 36 (1 / 2) (1 / 2 ^ 54) [] = Some [18]"
proof -
  have f: "to_double (1 / 2 * of_nat 36) = 18"
    using to_double_numeral [of "num.Bit0 (num.Bit1 (num.Bit0 (num.Bit0 num.One)))"] by simp
  have "to_double (of_int 9 / 2 ^ 52) = of_int 9 / 2 ^ 52"
    by (rule to_double_dyadic) simp_all
  then have d: "to_double (1 / 2 ^ 54 * of_nat 36) = 9 / 2 ^ 52" by simp
  have "radix_fraction (Suc 1099) 36 (1 / 2) (1 / 2 ^ 54) [] = Some [18]"
    unfolding radix_fraction.simps Let_def f d by simp
  then show ?thesis by simp
qed

lemma toString36_half: "toString36 (1 / 2) = ''0.i''"
proof -
  have "to_double (of_int 1 / 2 ^ 54) = of_int 1 / 2 ^ 54"
    by (rule to_double_dyadic) simp_all
  then have "to_double (1 / 2 * next_double_gap (1 / 2)) = 1 / 2 ^ 54"
    by (simp add: next_double_gap_half)
  moreover have "max (1 / 2 ^ 1074) (1 / 2 ^ 54 :: rat) = 1 / 2 ^ 54"
    by (simp add: max_def)
  ultimately have "max (1 / 2 ^ 1074) (to_double (1 / 2 * next_double_gap (1 / 2))) = 1 / 2 ^ 54"
    by (simp only:)
  then show ?thesis
    unfolding toString36_def Let_def
    by (simp only: radix_fraction_half) (simp add: digit_char_def)
qed

lemma resource_code_prefix:
  "take 5 (generateResourceCode r) = ''REDM-'' \<and> length (drop 5 (generateResourceCode r)) \<le> 6"
  by (simp add: generateResourceCode_def toUpperCase_def substring_def)

lemma upper_char_i: "upper_char CHR ''i'' = CHR ''I''"
  by code_simp

subsection \<open>Document references\<close>

lemma split_on_no_separator: "c \<notin> set s \<Longrightarrow> split_on c s = [s]"
  by (induction s) auto

lemma no_slash_no_double_slash: "CHR ''/'' \<notin> set s \<Longrightarrow> \<not> has_double_slash s"
  by (induction s rule: has_double_slash.induct) auto

lemma doc_path_plain: "p \<noteq> [] \<Longrightarrow> CHR ''/'' \<notin> set p \<Longrightarrow> doc_path p = Some [p]"
  by (simp add: doc_path_def split_on_no_separator no_slash_no_double_slash)

lemma digits10_no_slash: "CHR ''/'' \<notin> set (digits10 n)"
proof
  assume "CHR ''/'' \<in> set (digits10 n)"
  with digits10_digits [of n] have "is_radix_digit 10 CHR ''/''"
    by (simp add: list_all_iff)
  then show False by (simp add: is_radix_digit_def digit_value_def)
qed

lemma user_key_is_document_id: "doc_path (toString_num i) = Some [toString_num i]"
  by (rule doc_path_plain) (simp_all add: toString_num_def digits10_not_empty digits10_no_slash)

section \<open>Facts about the handlers\<close>

lemma start_success:
  assumes "p \<noteq> []" and "db_ok e 0"
  shows "after (start_handler e user p w) =
           w\<lparr>pending_verifications := (pending_verifications w)
                (toString_num (user_id user) \<mapsto> \<lparr>session_id = p, timestamp = now e\<rparr>)\<rparr>"
  using assms by (simp add: start_handler_def Let_def)

lemma contact_success:
  assumes "contact_user_id contact = Some (user_id user)"
    and "db_ok e 0" and "db_ok e 1" and "db_ok e 2"
    and "pending_verifications w (toString_num (user_id user)) = Some pendingDoc"
    and "doc_path (session_id pendingDoc) = Some path"
  shows "after (contact_handler e user contact w) =
           w\<lparr>otp_sessions := (otp_sessions w)
                (path \<mapsto>
                   \<lparr>otp = generateOTP (random e 0),
                    telegram_id = user_id user,
                    telegram_name = telegram_name_of user,
                    telegram_username = telegram_username_of user,
                    phone_number = contact_phone_number contact,
                    verified = False,
                    created_at = now e\<rparr>),
              pending_verifications :=
                (pending_verifications w)(toString_num (user_id user) := None)\<rparr>"
  using assms by (simp add: contact_handler_def Let_def)

lemma contact_refused:
  assumes "pending_verifications w (toString_num (user_id user)) = Some pendingDoc"
    and "doc_path (session_id pendingDoc) = None"
  shows "after (contact_handler e user contact w) = w"
    and "contact_user_id contact = Some (user_id user) \<Longrightarrow> db_ok e 0 \<Longrightarrow>
           contact_handler e user contact w =
             \<lparr>after = w, replies = [ContactError],
              db_ops = [Get_pending (toString_num (user_id user))], called_next = False\<rparr>"
  using assms by (simp_all add: contact_handler_def Let_def)

lemma contact_no_pending:
  assumes "pending_verifications w (toString_num (user_id user)) = None"
  shows "after (contact_handler e user contact w) = w"
    and "filter is_write (db_ops (contact_handler e user contact w)) = []"
    and "contact_user_id contact = Some (user_id user) \<Longrightarrow> db_ok e 0 \<Longrightarrow>
           replies (contact_handler e user contact w) = [SessionExpired]"
  using assms by (simp_all add: contact_handler_def Let_def is_write_def)

lemma contact_repeated:
  assumes "contact_user_id contact = Some (user_id user)"
    and "db_ok e 0" and "db_ok e 1" and "db_ok e 2"
  shows "after (contact_handler e' user contact' (after (contact_handler e user contact w))) =
           after (contact_handler e user contact w)"
proof (cases "pending_verifications w (toString_num (user_id user))")
  case None
  then have "after (contact_handler e user contact w) = w"
    by (rule contact_no_pending(1))
  with None show ?thesis by (simp add: contact_no_pending(1))
next
  case (Some pendingDoc)
  show ?thesis
  proof (cases "doc_path (session_id pendingDoc)")
    case None
    with Some have "after (contact_handler e user contact w) = w"
      by (rule contact_refused(1))
    with Some None show ?thesis by (simp add: contact_refused(1))
  next
    case (Some path)
    have "pending_verifications (after (contact_handler e user contact w))
            (toString_num (user_id user)) = None"
      by (simp add: contact_success [OF assms \<open>pending_verifications w _ = Some pendingDoc\<close> Some])
    then show ?thesis by (rule contact_no_pending(1))
  qed
qed

lemma confirm_add_outcomes:
  assumes "addCodeSessions w (user_id user) = Some session"
    and "codes session = Some cs" and "name session = Some n" and "link session = Some l"
  shows "db_ok e 0 \<Longrightarrow> send_ok e \<Longrightarrow>
           after (confirm_add_action e user w) =
             w\<lparr>access_codes := access_codes w @
                   map (\<lambda>c. \<lparr>code = c, resourceName = n, downloadUrl = l, isUsed = False,
                              code_created_at = now e\<rparr>) cs,
                addCodeSessions := (addCodeSessions w)(user_id user := None)\<rparr>"
    and "db_ok e 0 \<Longrightarrow> \<not> send_ok e \<Longrightarrow>
           after (confirm_add_action e user w) =
             w\<lparr>access_codes := access_codes w @
                   map (\<lambda>c. \<lparr>code = c, resourceName = n, downloadUrl = l, isUsed = False,
                              code_created_at = now e\<rparr>) cs\<rparr>"
    and "\<not> db_ok e 0 \<Longrightarrow>
           after (confirm_add_action e user w) = w \<and>
           replies (confirm_add_action e user w) = [DatabaseError]"
    and "db_ops (confirm_add_action e user w) = [Batch_commit (length cs)]"
  using assms by (simp_all add: confirm_add_action_def new_access_codes_def Let_def)

lemma generate_codes_length: "length (generate_codes e (Some c)) = nat c"
  by (simp add: generate_codes_def)

lemma ask_link_generates_count_codes:
  assumes "addCodeSessions w (user_id user) = Some session" and "step session = ASK_LINK"
    and "count session = Some c"
  shows "after (text_handler e user text w) =
           set_session (user_id user)
             (session\<lparr>link := Some (trim text), step := PREVIEW,
                      codes := Some (generate_codes e (Some c))\<rparr>) w \<and>
         length (generate_codes e (Some c)) = nat c"
  using assms by (simp add: text_handler_def Let_def generate_codes_length)

section \<open>The claims\<close>

text \<open>
  Claim C1, as the handlers have it. For every non-empty payload \<open>p\<close> without a slash, the
  start command of a user followed at once by that user sharing the own contact leaves
  exactly one new or replaced OTP session, at key \<open>p\<close>, with \<open>telegram_id\<close> the user's id,
  \<open>phone_number\<close> the shared phone number and \<open>verified\<close> false, and no pending
  verification at the user's key; all other documents are as before. The database calls
  of both handlers succeed.
\<close>

theorem start_then_contact_issues_otp:
  assumes "p \<noteq> []" and "CHR ''/'' \<notin> set p"
    and "db_ok e1 0" and "db_ok e2 0" and "db_ok e2 1" and "db_ok e2 2"
    and "contact_user_id contact = Some (user_id user)"
  shows "\<exists>r. otp_sessions (after (contact_handler e2 user contact
                                  (after (start_handler e1 user p w))))
                = (otp_sessions w)([p] \<mapsto> r) \<and>
             telegram_id r = user_id user \<and>
             phone_number r = contact_phone_number contact \<and>
             verified r = False \<and>
             pending_verifications (after (contact_handler e2 user contact
                                            (after (start_handler e1 user p w))))
                = (pending_verifications w)(toString_num (user_id user) := None)"
proof -
  let ?w1 = "after (start_handler e1 user p w)"
  have w1: "?w1 = w\<lparr>pending_verifications := (pending_verifications w)
                (toString_num (user_id user) \<mapsto> \<lparr>session_id = p, timestamp = now e1\<rparr>)\<rparr>"
    using assms(1,3) by (rule start_success)
  have pend: "pending_verifications ?w1 (toString_num (user_id user)) =
                Some \<lparr>session_id = p, timestamp = now e1\<rparr>"
    by (simp add: w1)
  have path: "doc_path (session_id \<lparr>session_id = p, timestamp = now e1\<rparr>) = Some [p]"
    using assms(1,2) by (simp add: doc_path_plain)
  show ?thesis
    unfolding contact_success [OF assms(7) assms(4-6) pend path]
    by (simp add: w1, intro exI conjI, rule refl, simp_all)
qed

theorem start_then_contact_issues_otp_witness:
  "''abc'' \<noteq> [] \<and> CHR ''/'' \<notin> set ''abc'' \<and>
   db_ok all_ok 0 \<and> db_ok all_ok 1 \<and> db_ok all_ok 2 \<and>
   contact_user_id alices_contact = Some (user_id alice) \<and>
   (\<exists>r. otp_sessions (after (contact_handler all_ok alice alices_contact
                              (after (start_handler all_ok alice ''abc'' empty_world))))
           = (otp_sessions empty_world)([''abc''] \<mapsto> r) \<and>
        telegram_id r = 42 \<and>
        phone_number r = ''+15550142'' \<and>
        verified r = False \<and>
        pending_verifications (after (contact_handler all_ok alice alices_contact
                                       (after (start_handler all_ok alice ''abc'' empty_world))))
           = (pending_verifications empty_world)(''42'' := None))"
  using start_then_contact_issues_otp [where p = "''abc''" and ?e1.0 = all_ok and ?e2.0 = all_ok
      and contact = alices_contact and user = alice and w = empty_world]
  by (simp add: all_ok_def alices_contact_def alice_def toString_num_def digits10.simps
        digit_char_def)

text \<open>
  Claim C1, as stated, fails: the payload \<open>a/b\<close> is not empty, yet it is no document path
  below \<open>otp_sessions\<close>. After the start command the contact handler reads the pending
  document, \<open>doc(sessionId)\<close> throws, and the handler replies with its error: no OTP session
  is written and the pending verification stays, although every database call succeeds.
\<close>

theorem start_then_contact_refuses_slash:
  "''a/b'' \<noteq> [] \<and> db_ok all_ok 0 \<and> db_ok all_ok 1 \<and> db_ok all_ok 2 \<and>
   contact_user_id alices_contact = Some (user_id alice) \<and>
   after (start_handler all_ok alice ''a/b'' empty_world) = alice_pending_slash \<and>
   contact_handler all_ok alice alices_contact
       (after (start_handler all_ok alice ''a/b'' empty_world)) =
     \<lparr>after = alice_pending_slash, replies = [ContactError], db_ops = [Get_pending ''42''],
      called_next = False\<rparr> \<and>
   otp_sessions alice_pending_slash = otp_sessions empty_world \<and>
   pending_verifications alice_pending_slash ''42'' =
     Some \<lparr>session_id = ''a/b'', timestamp = 1700000000\<rparr>"
  by (simp add: start_handler_def contact_handler_def doc_path_def Let_def all_ok_def
        alices_contact_def alice_def alice_pending_slash_def empty_world_def toString_num_def
        digits10.simps digit_char_def)

text \<open>
  Claim C2. When the shared contact's user id differs from the sender's, the contact
  handler replies with an error, makes no database call and leaves every collection as it
  was, whether or not a pending verification exists for the sender.
\<close>

theorem contact_foreign_no_change:
  assumes "contact_user_id contact \<noteq> Some (user_id user)"
  shows "contact_handler e user contact w =
           \<lparr>after = w, replies = [OwnContactError], db_ops = [], called_next = False\<rparr>"
  using assms by (simp add: contact_handler_def)

theorem contact_foreign_no_change_witness:
  "contact_user_id bobs_contact \<noteq> Some (user_id alice) \<and>
   pending_verifications alice_pending (toString_num (user_id alice)) \<noteq> None \<and>
   contact_handler all_ok alice bobs_contact alice_pending =
     \<lparr>after = alice_pending, replies = [OwnContactError], db_ops = [], called_next = False\<rparr>"
  using contact_foreign_no_change [where contact = bobs_contact and user = alice
      and e = all_ok and w = alice_pending]
  by (simp add: bobs_contact_def alice_def alice_pending_def toString_num_def digits10.simps
        digit_char_def)

text \<open>
  Claim C3. When the sender has no pending verification, the contact handler leaves every
  collection as it was and makes no writing or deleting database call; when the contact is
  the sender's own and the read of the pending document succeeds, the reply is the
  session-expired message. Hence a second contact share after a first one that went
  through changes nothing.
\<close>

theorem contact_without_pending_noop:
  "(pending_verifications w (toString_num (user_id user)) = None \<longrightarrow>
      after (contact_handler e user contact w) = w \<and>
      filter is_write (db_ops (contact_handler e user contact w)) = [] \<and>
      (contact_user_id contact = Some (user_id user) \<and> db_ok e 0 \<longrightarrow>
         replies (contact_handler e user contact w) = [SessionExpired])) \<and>
   (contact_user_id contact = Some (user_id user) \<and> db_ok e 0 \<and> db_ok e 1 \<and> db_ok e 2 \<longrightarrow>
      after (contact_handler e' user contact' (after (contact_handler e user contact w))) =
        after (contact_handler e user contact w))"
proof (rule conjI)
  show "pending_verifications w (toString_num (user_id user)) = None \<longrightarrow>
      after (contact_handler e user contact w) = w \<and>
      filter is_write (db_ops (contact_handler e user contact w)) = [] \<and>
      (contact_user_id contact = Some (user_id user) \<and> db_ok e 0 \<longrightarrow>
         replies (contact_handler e user contact w) = [SessionExpired])"
    by (simp add: contact_no_pending)
next
  let ?w1 = "after (contact_handler e user contact w)"
  show "contact_user_id contact = Some (user_id user) \<and> db_ok e 0 \<and> db_ok e 1 \<and> db_ok e 2 \<longrightarrow>
      after (contact_handler e' user contact' ?w1) = ?w1"
  proof
    assume "contact_user_id contact = Some (user_id user) \<and> db_ok e 0 \<and> db_ok e 1 \<and> db_ok e 2"
    then show "after (contact_handler e' user contact' ?w1) = ?w1"
      by (simp add: contact_repeated)
  qed
qed

theorem contact_without_pending_noop_witness:
  "pending_verifications empty_world (toString_num (user_id alice)) = None \<and>
   contact_user_id alices_contact = Some (user_id alice) \<and>
   db_ok all_ok 0 \<and> db_ok all_ok 1 \<and> db_ok all_ok 2 \<and>
   after (contact_handler all_ok alice alices_contact empty_world) = empty_world \<and>
   filter is_write (db_ops (contact_handler all_ok alice alices_contact empty_world)) = [] \<and>
   replies (contact_handler all_ok alice alices_contact empty_world) = [SessionExpired] \<and>
   after (contact_handler all_ok alice alices_contact
            (after (contact_handler all_ok alice alices_contact alice_pending))) =
     after (contact_handler all_ok alice alices_contact alice_pending)"
  using contact_without_pending_noop [where w = empty_world and user = alice and e = all_ok
      and contact = alices_contact and e' = all_ok and contact' = alices_contact]
    contact_without_pending_noop [where w = alice_pending and user = alice and e = all_ok
      and contact = alices_contact and e' = all_ok and contact' = alices_contact]
  by (simp add: empty_world_def alices_contact_def alice_def all_ok_def)

text \<open>
  Claim C4. For a user who is not the configured admin, the command \<open>/addcodes\<close> replies
  "unauthorized" and changes nothing: the session map and the collections are as before and
  no database call is made.
\<close>

theorem addcodes_unauthorized:
  assumes "user_id user \<noteq> ADMIN_ID"
  shows "addcodes_command user w =
           \<lparr>after = w, replies = [Unauthorized], db_ops = [], called_next = False\<rparr>"
  using assms by (simp add: addcodes_command_def)

theorem addcodes_unauthorized_witness:
  "user_id alice \<noteq> ADMIN_ID \<and>
   addcodes_command alice (world_with preview_session) =
     \<lparr>after = world_with preview_session, replies = [Unauthorized], db_ops = [],
      called_next = False\<rparr>"
  using addcodes_unauthorized [where user = alice and w = "world_with preview_session"]
  by (simp add: alice_def ADMIN_ID_def)

text \<open>
  Claim C5 asks that the batch be written as a whole and the admin's session then be
  cleared. The handler removes the session only after the confirmation message that it
  awaits between the commit and the removal. When the commit succeeds and that message is
  not delivered, all documents are written, the session stays, a database error is
  reported, and a second confirm writes the same batch once more.
\<close>

theorem confirm_add_keeps_session_when_edit_fails:
  "db_ok send_down 0 \<and>
   confirm_add_action send_down the_admin (world_with preview_session) =
     \<lparr>after = (world_with preview_session)
                \<lparr>access_codes := [premium_code ''REDM-I'', premium_code ''REDM-9'']\<rparr>,
      replies = [Added (Some 2) ''Premium Pack'', DatabaseError],
      db_ops = [Batch_commit 2], called_next = False\<rparr> \<and>
   addCodeSessions (after (confirm_add_action send_down the_admin (world_with preview_session)))
       ADMIN_ID = Some preview_session \<and>
   access_codes (after (confirm_add_action all_ok the_admin
       (after (confirm_add_action send_down the_admin (world_with preview_session))))) =
     [premium_code ''REDM-I'', premium_code ''REDM-9'',
      premium_code ''REDM-I'', premium_code ''REDM-9'']"
  by (simp add: confirm_add_action_def new_access_codes_def Let_def world_with_def
        the_admin_def preview_session_def send_down_def all_ok_def empty_world_def
        premium_code_def)

text \<open>
  Claim C6 asks that every resource code be \<open>REDM-\<close> followed by exactly six characters
  of \<open>[A-Z0-9]\<close>. The generator takes its characters from the text of a random number in
  radix 36, after the leading \<open>0.\<close>; that text has fewer than six digits when fewer
  suffice to tell the number from its neighbours. For the random number
  \<open>1 / 2 = 18 / 36\<close> the text is \<open>0.i\<close>, and the code has a single character after the
  prefix.
\<close>

theorem resource_code_of_half:
  "generateResourceCode (1 / 2) = ''REDM-I'' \<and>
   \<not> well_formed_code (generateResourceCode (1 / 2))"
  by (simp add: generateResourceCode_def toString36_half substring_def toUpperCase_def
        upper_char_i well_formed_code_def)

text \<open>
  Claim C7, as the handler has it. At step \<open>ASK_COUNT\<close> the handler applies \<open>parseInt\<close> to
  the trimmed text. When that gives no number, or a number that is not positive or exceeds
  50, it replies with the invalid-number message and changes nothing. Otherwise it stores
  the number as the count and moves the session to \<open>ASK_NAME\<close>. Every text whose trimmed
  form is a decimal numeral between 1 and 50 is stored with its value.
\<close>

theorem ask_count_follows_parseInt:
  assumes "addCodeSessions w (user_id user) = Some session" and "step session = ASK_COUNT"
  shows "(case parseInt (trim message) of
            None \<Rightarrow>
              text_handler e user message w =
                \<lparr>after = w, replies = [InvalidNumber], db_ops = [], called_next = False\<rparr>
          | Some n \<Rightarrow>
              if n \<le> 0 \<or> 50 < n then
                text_handler e user message w =
                  \<lparr>after = w, replies = [InvalidNumber], db_ops = [], called_next = False\<rparr>
              else
                text_handler e user message w =
                  \<lparr>after = set_session (user_id user)
                             (session\<lparr>count := Some n, step := ASK_NAME\<rparr>) w,
                   replies = [EnterResourceName], db_ops = [], called_next = False\<rparr>) \<and>
         (positive_integer_upto_50 (trim message) \<longrightarrow>
            after (text_handler e user message w) =
              set_session (user_id user)
                (session\<lparr>count := Some (int (radix_value 10 (trim message))),
                         step := ASK_NAME\<rparr>) w)"
proof -
  have "positive_integer_upto_50 (trim message) \<Longrightarrow>
          parseInt (trim message) = Some (int (radix_value 10 (trim message)))"
    by (simp add: positive_integer_upto_50_def parseInt_numeral)
  then show ?thesis
    using assms
    by (auto simp add: text_handler_def Let_def positive_integer_upto_50_def
          split: option.splits)
qed

theorem ask_count_follows_parseInt_witness:
  "addCodeSessions (world_with fresh_session) (user_id the_admin) = Some fresh_session \<and>
   step fresh_session = ASK_COUNT \<and>
   positive_integer_upto_50 (trim '' 7 '') \<and>
   after (text_handler all_ok the_admin '' 7 '' (world_with fresh_session)) =
     world_with (fresh_session\<lparr>count := Some 7, step := ASK_NAME\<rparr>) \<and>
   text_handler all_ok the_admin ''51'' (world_with fresh_session) =
     \<lparr>after = world_with fresh_session, replies = [InvalidNumber], db_ops = [],
      called_next = False\<rparr> \<and>
   text_handler all_ok the_admin ''abc'' (world_with fresh_session) =
     \<lparr>after = world_with fresh_session, replies = [InvalidNumber], db_ops = [],
      called_next = False\<rparr>"
  using ask_count_follows_parseInt [where w = "world_with fresh_session" and user = the_admin
      and session = fresh_session and message = "'' 7 ''" and e = all_ok]
    ask_count_follows_parseInt [where w = "world_with fresh_session" and user = the_admin
      and session = fresh_session and message = "''51''" and e = all_ok]
    ask_count_follows_parseInt [where w = "world_with fresh_session" and user = the_admin
      and session = fresh_session and message = "''abc''" and e = all_ok]
  by (simp add: world_with_def the_admin_def fresh_session_def set_session_def
        positive_integer_upto_50_def is_decimal_numeral_def
        trim_def is_white_space_def parseInt_def strip_sign_def strip_prefix_def
        is_radix_digit_def digit_value_def radix_value_def)

text \<open>
  Claim C7, as stated, fails: the text \<open>12abc\<close> is not a positive integer of at most 50,
  yet the handler stores the count 12 and moves the session to \<open>ASK_NAME\<close>.
\<close>

theorem ask_count_accepts_prefix:
  "\<not> positive_integer_upto_50 ''12abc'' \<and>
   \<not> positive_integer_upto_50 (trim ''12abc'') \<and>
   addCodeSessions (world_with fresh_session) (user_id the_admin) = Some fresh_session \<and>
   step fresh_session = ASK_COUNT \<and>
   text_handler all_ok the_admin ''12abc'' (world_with fresh_session) =
     \<lparr>after = world_with (fresh_session\<lparr>count := Some 12, step := ASK_NAME\<rparr>),
      replies = [EnterResourceName], db_ops = [], called_next = False\<rparr>"
  by (simp add: text_handler_def world_with_def the_admin_def fresh_session_def set_session_def
        positive_integer_upto_50_def is_decimal_numeral_def
        trim_def is_white_space_def parseInt_def strip_sign_def strip_prefix_def
        is_radix_digit_def digit_value_def radix_value_def)

text \<open>
  Claim C8. For every double \<open>r\<close> with \<open>0 \<le> r < 1\<close> that \<open>Math.random()\<close> returns, the OTP
  is a text of exactly six decimal digits, its value lies between 100000 and 999999, and
  its first digit is not zero.
\<close>

theorem otp_six_digits:
  assumes "is_double r" and "0 \<le> r" and "r < 1"
  shows "length (generateOTP r) = 6 \<and>
         list_all (is_radix_digit 10) (generateOTP r) \<and>
         100000 \<le> radix_value 10 (generateOTP r) \<and>
         radix_value 10 (generateOTP r) \<le> 999999 \<and>
         hd (generateOTP r) \<noteq> CHR ''0''"
proof -
  define i where "i = \<lfloor>to_double (100000 + to_double (r * 900000))\<rfloor>"
  from otp_number_range [OF assms] have i: "100000 \<le> i" "i \<le> 999999"
    by (simp_all add: i_def)
  define n where "n = nat i"
  from i have n: "10 ^ 5 \<le> n" "n < 10 ^ Suc 5" "0 < n" by (simp_all add: n_def)
  have g: "generateOTP r = digits10 n"
    using i by (simp add: generateOTP_def toString_num_def i_def n_def)
  from n(1,2) have "length (digits10 n) = Suc 5" by (rule digits10_length)
  moreover from n have "100000 \<le> n" "n \<le> 999999" by simp_all
  ultimately show ?thesis
    using digits10_no_leading_zero [OF n(3)]
    by (simp add: g digits10_digits radix_value_digits10)
qed

theorem otp_six_digits_witness:
  "is_double (1 / 2) \<and> (0::rat) \<le> 1 / 2 \<and> (1 / 2 :: rat) < 1 \<and>
   length (generateOTP (1 / 2)) = 6 \<and>
   list_all (is_radix_digit 10) (generateOTP (1 / 2)) \<and>
   100000 \<le> radix_value 10 (generateOTP (1 / 2)) \<and>
   radix_value 10 (generateOTP (1 / 2)) \<le> 999999 \<and>
   hd (generateOTP (1 / 2)) \<noteq> CHR ''0''"
  using otp_six_digits [of "1 / 2"] half_is_double by simp

text \<open>
  Claim C9, as the handler has it. At step \<open>ASK_NAME\<close> the handler stores the trimmed text
  as the resource name and moves the session to \<open>ASK_LINK\<close>; a text that neither begins nor
  ends with white space is stored as it is.
\<close>

theorem ask_name_stores_trimmed:
  assumes "addCodeSessions w (user_id user) = Some session" and "step session = ASK_NAME"
  shows "text_handler e user message w =
           \<lparr>after = set_session (user_id user)
                      (session\<lparr>name := Some (trim message), step := ASK_LINK\<rparr>) w,
            replies = [PasteDownloadLink], db_ops = [], called_next = False\<rparr> \<and>
         (\<not> untrimmed message \<longrightarrow> trim message = message)"
  using assms by (simp add: text_handler_def Let_def trim_id)

theorem ask_name_stores_trimmed_witness:
  "addCodeSessions (world_with name_session) (user_id the_admin) = Some name_session \<and>
   step name_session = ASK_NAME \<and> \<not> untrimmed ''Premium *Pack*'' \<and>
   text_handler all_ok the_admin ''Premium *Pack*'' (world_with name_session) =
     \<lparr>after = world_with (name_session\<lparr>name := Some ''Premium *Pack*'', step := ASK_LINK\<rparr>),
      replies = [PasteDownloadLink], db_ops = [], called_next = False\<rparr>"
  using ask_name_stores_trimmed [where w = "world_with name_session" and user = the_admin
      and session = name_session and message = "''Premium *Pack*''" and e = all_ok]
  by (simp add: world_with_def the_admin_def name_session_def set_session_def untrimmed_def
        is_white_space_def)

text \<open>
  Claim C9, as stated, fails: of the text \<open>Premium Pack\<close> with a space before it, the
  handler stores the name without that space.
\<close>

theorem ask_name_drops_leading_space:
  "addCodeSessions (world_with name_session) (user_id the_admin) = Some name_session \<and>
   step name_session = ASK_NAME \<and>
   addCodeSessions (after (text_handler all_ok the_admin '' Premium Pack''
                             (world_with name_session))) ADMIN_ID =
     Some (name_session\<lparr>name := Some ''Premium Pack'', step := ASK_LINK\<rparr>) \<and>
   ''Premium Pack'' \<noteq> '' Premium Pack''"
  by (simp add: text_handler_def world_with_def the_admin_def name_session_def set_session_def
        trim_def is_white_space_def)

text \<open>
  Claim C10. A text from a user whose session is at step \<open>PREVIEW\<close> has no effect: the
  state, and with it the session, is unchanged, nothing is sent, no database call is made,
  and \<open>next()\<close> is not called.
\<close>

theorem text_at_preview_ignored:
  assumes "addCodeSessions w (user_id user) = Some session" and "step session = PREVIEW"
  shows "text_handler e user message w =
           \<lparr>after = w, replies = [], db_ops = [], called_next = False\<rparr>"
  using assms by (simp add: text_handler_def)

theorem text_at_preview_ignored_witness:
  "addCodeSessions (world_with preview_session) (user_id the_admin) = Some preview_session \<and>
   step preview_session = PREVIEW \<and>
   text_handler all_ok the_admin ''hello'' (world_with preview_session) =
     \<lparr>after = world_with preview_session, replies = [], db_ops = [], called_next = False\<rparr>"
  using text_at_preview_ignored [where w = "world_with preview_session" and user = the_admin
      and session = preview_session and e = all_ok and message = "''hello''"]
  by (simp add: world_with_def the_admin_def preview_session_def)

end
